theory Spec2Isabelle
  imports Main
begin

section \<open>TabbedViews: a shallow embedding of the React component\<close>

text \<open>
  The component of \<^verbatim>\<open>src/wandb/board/ui/src/components/TabbedViews.js\<close> is a class
  with one method, \<^verbatim>\<open>render\<close>, one field of local state (\<^verbatim>\<open>editMode\<close>) and four
  event handlers written inline in the JSX. The embedding keeps that shape:
  \<^item> the props and the state are records;
  \<^item> the element tree that \<^verbatim>\<open>render\<close> returns is a record of its three children
    (a conditional child \<^verbatim>\<open>{c && <X/>}\<close> is an option);
  \<^item> a \<^verbatim>\<open>TypeError\<close> thrown while rendering is the \<open>Inl\<close> branch of a sum;
  \<^item> an event handler is a function from the state at the time of the event to the new
    state and the list of parent callbacks it has called, in order.
\<close>

subsection \<open>JavaScript values\<close>

text \<open>
  The values that reach \<^verbatim>\<open>activeView\<close> and the second argument of \<^verbatim>\<open>setActiveView\<close>:
  a tab id (a string), a pane index (an integral number), or nothing.
\<close>

datatype jsval = Undefined | Null | Num int | Str string

text \<open>\<^verbatim>\<open>_.isNil(value)\<close> of lodash: \<^verbatim>\<open>value == null\<close>.\<close>

fun isNil :: "jsval \<Rightarrow> bool" where
  "isNil Undefined = True"
| "isNil Null = True"
| "isNil (Num n) = False"
| "isNil (Str s) = False"

text \<open>JavaScript's \<^verbatim>\<open>ToBoolean\<close>: the empty string and zero are falsy, as are both nils.\<close>

fun truthy :: "jsval \<Rightarrow> bool" where
  "truthy Undefined = False"
| "truthy Null = False"
| "truthy (Num n) = (n \<noteq> 0)"
| "truthy (Str s) = (s \<noteq> [])"

text \<open>\<^verbatim>\<open>a || b\<close>.\<close>

definition js_or :: "jsval \<Rightarrow> jsval \<Rightarrow> jsval" where
  "js_or a b = (if truthy a then a else b)"

text \<open>\<^verbatim>\<open>array[index]\<close> on an array of strings: out of range reads give \<^verbatim>\<open>undefined\<close>.\<close>

definition js_index :: "string list \<Rightarrow> int \<Rightarrow> jsval" where
  "js_index array index =
     (if 0 \<le> index \<and> index < int (length array) then Str (array ! nat index) else Undefined)"

text \<open>
  \<^verbatim>\<open>_.indexOf(array, value)\<close> of lodash, which for a value other than NaN runs
  \<^verbatim>\<open>strictIndexOf(array, value, 0)\<close>: the first index whose element is \<^verbatim>\<open>===\<close> the
  value, or -1.
\<close>

fun strictIndexOf :: "string list \<Rightarrow> jsval \<Rightarrow> int \<Rightarrow> int" where
  "strictIndexOf [] v index = - 1"
| "strictIndexOf (x # xs) v index =
     (if Str x = v then index else strictIndexOf xs v (index + 1))"

definition indexOf :: "string list \<Rightarrow> jsval \<Rightarrow> int" where
  "indexOf array v = strictIndexOf array v 0"

subsection \<open>Props, state, callbacks\<close>

record view =
  name :: string

record ('vt, 'vs, 'r) props =
  tabs :: "string list"
  views :: "string \<rightharpoonup> view"
  activeView :: jsval
  blank :: bool
  viewType :: 'vt
  isModified :: bool
  viewState :: 'vs
  renderView :: "string \<Rightarrow> bool \<Rightarrow> 'r"

record state =
  editMode :: bool

text \<open>\<^verbatim>\<open>state = {editMode: false}\<close>\<close>

definition initial_state :: state where
  "initial_state = \<lparr>editMode = False\<rparr>"

text \<open>
  The three callback props are owned by the parent; a call of one is recorded with its
  arguments.
\<close>

datatype 'vt call =
    AddView 'vt string "jsval list"
  | SetActiveView 'vt jsval
  | UpdateViews string

type_synonym 'vt handler = "state \<Rightarrow> state \<times> 'vt call list"

datatype error = TypeError

subsection \<open>The rendered elements\<close>

record 'vt button =
  content :: string
  color :: "string option"
  floated :: string
  icon :: "string option"
  disabled :: bool
  onClick :: "'vt handler"

text \<open>
  A pane descriptor. \<open>ViewPane key label body\<close> is
  \<^verbatim>\<open>{menuItem: {key, content: <span>{label}</span>}, render: () => <Tab.Pane>{body}</Tab.Pane>}\<close>;
  \<open>AddPane h\<close> is
  \<^verbatim>\<open>{menuItem: <Menu.Item key="add" onClick={h}><Icon name="plus"/></Menu.Item>}\<close>.
\<close>

datatype ('vt, 'r) pane =
    ViewPane string string 'r
  | AddPane "'vt handler"

fun isAddPane :: "('vt, 'r) pane \<Rightarrow> bool" where
  "isAddPane (ViewPane k l b) = False"
| "isAddPane (AddPane h) = True"

record ('vt, 'r) tab =
  panes :: "('vt, 'r) pane list"
  activeIndex :: int
  onTabChange :: "int \<Rightarrow> 'vt handler"

record ('vt, 'r) element =
  saveButton :: "'vt button option"
  toggleButton :: "'vt button"
  tabStrip :: "('vt, 'r) tab option"

subsection \<open>Property reads on the views object\<close>

text \<open>
  \<^verbatim>\<open>views\<close> is a plain object: its own properties are the entries of the mapping, and a
  read of a key that is not an own property goes on to \<^verbatim>\<open>Object.prototype\<close>. So
  \<^verbatim>\<open>views[viewId]\<close> is a view, or one of the functions every object inherits, or (for
  \<^verbatim>\<open>__proto__\<close>) the prototype object itself, or \<^verbatim>\<open>undefined\<close>.
\<close>

datatype jsobj = View view | InheritedFunction string | ObjectPrototype

text \<open>
  The properties of \<^verbatim>\<open>Object.prototype\<close>. \<open>InheritedFunction n\<close> is a function whose
  \<^verbatim>\<open>name\<close> is \<open>n\<close>: the constructor is \<^verbatim>\<open>Object\<close>, and each method is named by its
  key.
\<close>

definition Object_prototype :: "string \<rightharpoonup> jsobj" where
  "Object_prototype key =
     (if key = ''constructor'' then Some (InheritedFunction ''Object'')
      else if key = ''__proto__'' then Some ObjectPrototype
      else if key \<in> set [''hasOwnProperty'', ''isPrototypeOf'', ''propertyIsEnumerable'',
                          ''toLocaleString'', ''toString'', ''valueOf'',
                          ''__defineGetter__'', ''__defineSetter__'',
                          ''__lookupGetter__'', ''__lookupSetter__'']
      then Some (InheritedFunction key)
      else None)"

text \<open>\<^verbatim>\<open>obj[key]\<close>; \<open>None\<close> is \<^verbatim>\<open>undefined\<close>.\<close>

definition js_get :: "(string \<rightharpoonup> view) \<Rightarrow> string \<Rightarrow> jsobj option" where
  "js_get obj key = (case obj key of Some v \<Rightarrow> Some (View v) | None \<Rightarrow> Object_prototype key)"

text \<open>
  \<^verbatim>\<open>x.name\<close> on a value that is not undefined; \<open>None\<close> is \<^verbatim>\<open>undefined\<close>
  (\<^verbatim>\<open>Object.prototype\<close> has no property \<^verbatim>\<open>name\<close>).
\<close>

fun js_name :: "jsobj \<Rightarrow> string option" where
  "js_name (View v) = Some (name v)"
| "js_name (InheritedFunction n) = Some n"
| "js_name ObjectPrototype = None"

text \<open>\<^verbatim>\<open>x + s\<close> for a string \<open>s\<close>: \<^verbatim>\<open>undefined\<close> is converted to the text "undefined".\<close>

definition js_concat :: "string option \<Rightarrow> string \<Rightarrow> string" where
  "js_concat x s = (case x of Some t \<Rightarrow> t @ s | None \<Rightarrow> ''undefined'' @ s)"

subsection \<open>render\<close>

text \<open>
  Lines 14 to 24, \<^verbatim>\<open>this.props.tabs.map(viewId => ...)\<close>: the property read
  \<^verbatim>\<open>this.props.views[viewId].name\<close> throws a TypeError when \<^verbatim>\<open>views[viewId]\<close> is
  undefined.
\<close>

fun tab_panes ::
  "('vt, 'vs, 'r) props \<Rightarrow> state \<Rightarrow> string list \<Rightarrow> error + ('vt, 'r) pane list" where
  "tab_panes p st [] = Inr []"
| "tab_panes p st (viewId # rest) =
     (case js_get (views p) viewId of
        None \<Rightarrow> Inl TypeError
      | Some v \<Rightarrow>
          (case tab_panes p st rest of
             Inl e \<Rightarrow> Inl e
           | Inr ps \<Rightarrow>
               Inr (ViewPane viewId (js_concat (js_name v) '' '')
                      (renderView p viewId (editMode st)) # ps)))"

text \<open>Lines 30 to 32, the handler of the "+" menu item.\<close>

definition add_onClick :: "('vt, 'vs, 'r) props \<Rightarrow> 'vt handler" where
  "add_onClick p s = (s, [AddView (viewType p) ''New View'' []])"

text \<open>Lines 14 to 37: the panes of the tabs, and in edit mode the "+" pane pushed last.\<close>

definition render_panes ::
  "('vt, 'vs, 'r) props \<Rightarrow> state \<Rightarrow> error + ('vt, 'r) pane list" where
  "render_panes p st =
     (case tab_panes p st (tabs p) of
        Inl e \<Rightarrow> Inl e
      | Inr ps \<Rightarrow> Inr (if editMode st then ps @ [AddPane (add_onClick p)] else ps))"

text \<open>Lines 38 to 44.\<close>

definition render_activeIndex :: "('vt, 'vs, 'r) props \<Rightarrow> int" where
  "render_activeIndex p =
     (if \<not> isNil (activeView p)
      then (let i = indexOf (tabs p) (activeView p) in if i = - 1 then 0 else i)
      else 0)"

text \<open>
  Lines 53 to 56, the handler of the Save button. \<^verbatim>\<open>JSON.stringify\<close> is the
  parameter \<open>stringify\<close>.
\<close>

definition save_onClick :: "('vs \<Rightarrow> string) \<Rightarrow> ('vt, 'vs, 'r) props \<Rightarrow> 'vt handler" where
  "save_onClick stringify p s = (s\<lparr>editMode := False\<rparr>, [UpdateViews (stringify (viewState p))])"

text \<open>Line 63, the handler of the mode button.\<close>

definition toggle_onClick :: "'vt handler" where
  "toggle_onClick s = (s\<lparr>editMode := \<not> editMode s\<rparr>, [])"

text \<open>Lines 69 to 74, the handler of the tab strip's change event.\<close>

definition tab_onTabChange :: "('vt, 'vs, 'r) props \<Rightarrow> int \<Rightarrow> 'vt handler" where
  "tab_onTabChange p index s =
     (s, [SetActiveView (viewType p) (js_or (js_index (tabs p) index) (Num index))])"

text \<open>Lines 45 to 78, the returned tree.\<close>

definition render ::
  "('vs \<Rightarrow> string) \<Rightarrow> ('vt, 'vs, 'r) props \<Rightarrow> state \<Rightarrow> error + ('vt, 'r) element" where
  "render stringify p st =
     (case render_panes p st of
        Inl e \<Rightarrow> Inl e
      | Inr ps \<Rightarrow>
          Inr \<lparr>saveButton =
                 (if editMode st
                  then Some \<lparr>content = ''Save Changes'', color = Some ''green'',
                             floated = ''right'', icon = None,
                             disabled = (\<not> isModified p),
                             onClick = save_onClick stringify p\<rparr>
                  else None),
               toggleButton =
                 \<lparr>content = (if editMode st then ''View Charts'' else ''Edit Charts''),
                  color = None, floated = ''right'',
                  icon = Some (if editMode st then ''unhide'' else ''configure''),
                  disabled = False,
                  onClick = toggle_onClick\<rparr>,
               tabStrip =
                 (if \<not> blank p \<or> editMode st
                  then Some \<lparr>panes = ps, activeIndex = render_activeIndex p,
                             onTabChange = tab_onTabChange p\<rparr>
                  else None)\<rparr>)"

subsection \<open>The toolkit's dispatch of a click\<close>

text \<open>
  Modelled from the spec: the Button of the UI toolkit (semantic-ui-react, an external
  collaborator that is not part of the source file) calls \<^verbatim>\<open>onClick\<close> on a click unless it
  is disabled ("clicking Save while \<^verbatim>\<open>isModified\<close> is false has no effect (button
  disabled)").
\<close>

definition click :: "'vt button \<Rightarrow> 'vt handler" where
  "click b s = (if disabled b then (s, []) else onClick b s)"

subsection \<open>What a render shows\<close>

text \<open>
  A render that throws returns no tree, so it shows neither the Save button nor the tab
  strip.
\<close>

definition saveButton_rendered :: "('vs \<Rightarrow> string) \<Rightarrow> ('vt, 'vs, 'r) props \<Rightarrow> state \<Rightarrow> bool" where
  "saveButton_rendered stringify p st =
     (case render stringify p st of Inl e \<Rightarrow> False | Inr el \<Rightarrow> saveButton el \<noteq> None)"

definition tabStrip_rendered :: "('vs \<Rightarrow> string) \<Rightarrow> ('vt, 'vs, 'r) props \<Rightarrow> state \<Rightarrow> bool" where
  "tabStrip_rendered stringify p st =
     (case render stringify p st of Inl e \<Rightarrow> False | Inr el \<Rightarrow> tabStrip el \<noteq> None)"

subsection \<open>A concrete instance\<close>

text \<open>
  The scenario of the specification: tabs a and b, named Alpha and Beta, b active. The view
  state is a boolean, whose JSON text is \<^verbatim>\<open>true\<close> or \<^verbatim>\<open>false\<close>.
\<close>

definition ex_views :: "string \<rightharpoonup> view" where
  "ex_views = [''a'' \<mapsto> \<lparr>name = ''Alpha''\<rparr>, ''b'' \<mapsto> \<lparr>name = ''Beta''\<rparr>]"

definition ex_renderView :: "string \<Rightarrow> bool \<Rightarrow> string" where
  "ex_renderView viewId em = (if em then ''edit '' @ viewId else ''view '' @ viewId)"

definition ex_stringify :: "bool \<Rightarrow> string" where
  "ex_stringify b = (if b then ''true'' else ''false'')"

definition ex_props :: "(string, bool, string) props" where
  "ex_props =
     \<lparr>tabs = [''a'', ''b''], views = ex_views, activeView = Str ''b'', blank = False,
      viewType = ''runs'', isModified = True, viewState = True, renderView = ex_renderView\<rparr>"

definition viewing :: state where
  "viewing = \<lparr>editMode = False\<rparr>"

definition editing :: state where
  "editing = \<lparr>editMode = True\<rparr>"

section \<open>Properties\<close>

subsection \<open>The lookup of the active tab\<close>

lemma strictIndexOf_absent:
  "v \<notin> Str ` set xs \<Longrightarrow> strictIndexOf xs v k = - 1"
  by (induction xs arbitrary: k) auto

lemma strictIndexOf_present:
  "s \<in> set xs \<Longrightarrow>
   \<exists>j<length xs. strictIndexOf xs (Str s) k = k + int j \<and> xs ! j = s \<and> (\<forall>i<j. xs ! i \<noteq> s)"
proof (induction xs arbitrary: k)
  case Nil
  then show ?case by simp
next
  case (Cons x xs)
  show ?case
  proof (cases "x = s")
    case True
    then show ?thesis by (intro exI [of _ 0]) simp
  next
    case False
    with Cons.prems have "s \<in> set xs" by simp
    from Cons.IH [OF this, of "k + 1"] obtain j where
      j: "j < length xs" "strictIndexOf xs (Str s) (k + 1) = k + 1 + int j" "xs ! j = s"
         "\<forall>i<j. xs ! i \<noteq> s"
      by blast
    have "\<forall>i<Suc j. (x # xs) ! i \<noteq> s"
      using False j(4) by (auto simp: nth_Cons split: nat.splits)
    with j False show ?thesis
      by (intro exI [of _ "Suc j"]) simp
  qed
qed

subsection \<open>The panes of the tabs\<close>

lemma js_get_own: "views p viewId = Some v \<Longrightarrow> js_get (views p) viewId = Some (View v)"
  by (simp add: js_get_def)

lemma js_get_None_iff:
  "js_get obj key = None \<longleftrightarrow> obj key = None \<and> Object_prototype key = None"
  by (simp add: js_get_def split: option.splits)

lemma tab_panes_present:
  "\<forall>viewId\<in>set ids. views p viewId \<noteq> None \<Longrightarrow>
   tab_panes p st ids =
     Inr (map (\<lambda>viewId. ViewPane viewId (name (the (views p viewId)) @ '' '')
                 (renderView p viewId (editMode st))) ids)"
  by (induction ids) (auto simp: js_get_own js_concat_def)

lemma tab_panes_missing:
  "viewId \<in> set ids \<Longrightarrow> js_get (views p) viewId = None \<Longrightarrow> tab_panes p st ids = Inl TypeError"
proof (induction ids)
  case Nil
  then show ?case by simp
next
  case (Cons a ids)
  show ?case
  proof (cases "js_get (views p) a")
    case None
    then show ?thesis by simp
  next
    case (Some v)
    with Cons.prems have "viewId \<in> set ids" by auto
    with Cons have "tab_panes p st ids = Inl TypeError" by simp
    with Some show ?thesis by simp
  qed
qed

lemma tab_panes_defined:
  "\<forall>viewId\<in>set ids. js_get (views p) viewId \<noteq> None \<Longrightarrow> \<exists>ps. tab_panes p st ids = Inr ps"
  by (induction ids) auto

lemma tab_panes_Inr_iff:
  "(\<exists>ps. tab_panes p st ids = Inr ps) \<longleftrightarrow> (\<forall>viewId\<in>set ids. js_get (views p) viewId \<noteq> None)"
proof
  assume "\<exists>ps. tab_panes p st ids = Inr ps"
  then show "\<forall>viewId\<in>set ids. js_get (views p) viewId \<noteq> None"
    using tab_panes_missing [of _ ids p st] by fastforce
next
  assume "\<forall>viewId\<in>set ids. js_get (views p) viewId \<noteq> None"
  then show "\<exists>ps. tab_panes p st ids = Inr ps"
    by (rule tab_panes_defined)
qed

subsection \<open>The active index\<close>

text \<open>
  C1: for every tabs sequence and every activeView value, if activeView is set and present
  in tabs, the computed active index is the position of activeView within tabs (the first
  one, an index in range that holds it and has no earlier occurrence); if activeView is
  unset (undefined or null) or not present in tabs, the computed active index is 0.
\<close>

theorem C1_activeIndex:
  "(\<forall>s. activeView p = Str s \<and> s \<in> set (tabs p) \<longrightarrow>
        0 \<le> render_activeIndex p \<and> render_activeIndex p < int (length (tabs p)) \<and>
        tabs p ! nat (render_activeIndex p) = s \<and>
        (\<forall>j<nat (render_activeIndex p). tabs p ! j \<noteq> s)) \<and>
   (isNil (activeView p) \<or> activeView p \<notin> Str ` set (tabs p) \<longrightarrow> render_activeIndex p = 0)"
proof -
  have present:
    "0 \<le> render_activeIndex p \<and> render_activeIndex p < int (length (tabs p)) \<and>
     tabs p ! nat (render_activeIndex p) = s \<and>
     (\<forall>j<nat (render_activeIndex p). tabs p ! j \<noteq> s)"
    if a: "activeView p = Str s \<and> s \<in> set (tabs p)" for s
  proof -
    from a obtain j where
      j: "j < length (tabs p)" "strictIndexOf (tabs p) (Str s) 0 = 0 + int j" "tabs p ! j = s"
         "\<forall>i<j. tabs p ! i \<noteq> s"
      using strictIndexOf_present [of s "tabs p" 0] by blast
    from a j have r: "render_activeIndex p = int j"
      by (simp add: render_activeIndex_def indexOf_def Let_def)
    from j show ?thesis
      unfolding r by simp
  qed
  have absent: "render_activeIndex p = 0"
    if "isNil (activeView p) \<or> activeView p \<notin> Str ` set (tabs p)"
    using that
    by (auto simp: render_activeIndex_def indexOf_def Let_def strictIndexOf_absent)
  from present absent show ?thesis by blast
qed


theorem C1_activeIndex_witness:
  "activeView ex_props = Str ''b'' \<and> ''b'' \<in> set (tabs ex_props) \<and>
   render_activeIndex ex_props = 1 \<and>
   isNil (activeView (ex_props\<lparr>activeView := Undefined\<rparr>)) \<and>
   render_activeIndex (ex_props\<lparr>activeView := Undefined\<rparr>) = 0 \<and>
   Str ''z'' \<notin> Str ` set (tabs ex_props) \<and>
   render_activeIndex (ex_props\<lparr>activeView := Str ''z''\<rparr>) = 0"
proof -
  have h1: "activeView ex_props = Str ''b'' \<and> ''b'' \<in> set (tabs ex_props)"
    by (simp add: ex_props_def)
  with C1_activeIndex [of ex_props] have
    r: "0 \<le> render_activeIndex ex_props" "tabs ex_props ! nat (render_activeIndex ex_props) = ''b''"
       "\<forall>j<nat (render_activeIndex ex_props). tabs ex_props ! j \<noteq> ''b''"
    by blast+
  have "nat (render_activeIndex ex_props) \<noteq> 0"
    using r(2) by (auto simp: ex_props_def)
  moreover have "\<not> 1 < nat (render_activeIndex ex_props)"
  proof
    assume "1 < nat (render_activeIndex ex_props)"
    with r(3) have "tabs ex_props ! 1 \<noteq> ''b''" by blast
    then show False by (simp add: ex_props_def)
  qed
  ultimately have i1: "render_activeIndex ex_props = 1"
    using r(1) by linarith
  have h2: "isNil (activeView (ex_props\<lparr>activeView := Undefined\<rparr>))"
    by simp
  with C1_activeIndex [of "ex_props\<lparr>activeView := Undefined\<rparr>"]
  have i2: "render_activeIndex (ex_props\<lparr>activeView := Undefined\<rparr>) = 0"
    by blast
  have h3: "Str ''z'' \<notin> Str ` set (tabs ex_props)"
    by (simp add: ex_props_def)
  with C1_activeIndex [of "ex_props\<lparr>activeView := Str ''z''\<rparr>"]
  have i3: "render_activeIndex (ex_props\<lparr>activeView := Str ''z''\<rparr>) = 0"
    by simp
  from h1 i1 h2 i2 h3 i3 show ?thesis by blast
qed

subsection \<open>What render returns\<close>

lemma render_panes_missing:
  "viewId \<in> set (tabs p) \<Longrightarrow> js_get (views p) viewId = None \<Longrightarrow>
   render_panes p st = Inl TypeError"
  by (simp add: render_panes_def tab_panes_missing)

lemma render_panes_present:
  "\<forall>viewId\<in>set (tabs p). views p viewId \<noteq> None \<Longrightarrow>
   render_panes p st =
     Inr (map (\<lambda>viewId. ViewPane viewId (name (the (views p viewId)) @ '' '')
                 (renderView p viewId (editMode st))) (tabs p)
          @ (if editMode st then [AddPane (add_onClick p)] else []))"
  by (simp add: render_panes_def tab_panes_present)

lemma render_Inl_iff:
  "render stringify p st = Inl e \<longleftrightarrow> render_panes p st = Inl e"
  by (simp add: render_def split: sum.splits)

lemma render_InrE:
  assumes "render stringify p st = Inr el"
  obtains ps where "render_panes p st = Inr ps"
    and "saveButton el =
           (if editMode st
            then Some \<lparr>content = ''Save Changes'', color = Some ''green'',
                       floated = ''right'', icon = None,
                       disabled = (\<not> isModified p),
                       onClick = save_onClick stringify p\<rparr>
            else None)"
    and "toggleButton el =
           \<lparr>content = (if editMode st then ''View Charts'' else ''Edit Charts''),
            color = None, floated = ''right'',
            icon = Some (if editMode st then ''unhide'' else ''configure''),
            disabled = False,
            onClick = toggle_onClick\<rparr>"
    and "tabStrip el =
           (if \<not> blank p \<or> editMode st
            then Some \<lparr>panes = ps, activeIndex = render_activeIndex p,
                       onTabChange = tab_onTabChange p\<rparr>
            else None)"
  using assms by (auto simp: render_def split: sum.splits)

lemma render_tabStrip:
  assumes "render stringify p st = Inr el" and "tabStrip el = Some t"
  shows "Inr (panes t) = render_panes p st" and "activeIndex t = render_activeIndex p"
    and "onTabChange t = tab_onTabChange p"
  using assms by (auto elim!: render_InrE split: if_splits)

lemma render_cover:
  "\<forall>viewId\<in>set (tabs p). views p viewId \<noteq> None \<Longrightarrow> \<exists>el. render stringify p st = Inr el"
  by (simp add: render_def render_panes_present)

lemma render_Inr_iff:
  "(\<exists>el. render stringify p st = Inr el) \<longleftrightarrow>
     (\<forall>viewId\<in>set (tabs p). js_get (views p) viewId \<noteq> None)"
proof
  assume "\<exists>el. render stringify p st = Inr el"
  then obtain el where "render stringify p st = Inr el" ..
  then obtain ps where "render_panes p st = Inr ps" by (rule render_InrE)
  then show "\<forall>viewId\<in>set (tabs p). js_get (views p) viewId \<noteq> None"
    using render_panes_missing [of _ p st] by fastforce
next
  assume "\<forall>viewId\<in>set (tabs p). js_get (views p) viewId \<noteq> None"
  then obtain qs where "tab_panes p st (tabs p) = Inr qs"
    using tab_panes_defined [of "tabs p" p st] by blast
  then show "\<exists>el. render stringify p st = Inr el"
    by (simp add: render_def render_panes_def)
qed

lemma cover_js_get:
  "\<forall>viewId\<in>set ids. views p viewId \<noteq> None \<Longrightarrow> \<forall>viewId\<in>set ids. js_get (views p) viewId \<noteq> None"
  by (auto simp: js_get_own)

lemma tab_panes_no_add:
  "tab_panes p st ids = Inr qs \<Longrightarrow> length qs = length ids \<and> (\<forall>x\<in>set qs. \<not> isAddPane x)"
proof (induction ids arbitrary: qs)
  case Nil
  then show ?case by simp
next
  case (Cons a ids)
  from Cons.prems obtain v rest where
    "js_get (views p) a = Some v" "tab_panes p st ids = Inr rest"
    "qs = ViewPane a (js_concat (js_name v) '' '') (renderView p a (editMode st)) # rest"
    by (auto split: option.splits sum.splits)
  with Cons.IH [of rest] show ?case by simp
qed

lemma render_panes_InrD:
  "render_panes p st = Inr ps \<Longrightarrow>
   \<exists>qs. tab_panes p st (tabs p) = Inr qs \<and>
        ps = (if editMode st then qs @ [AddPane (add_onClick p)] else qs)"
  by (auto simp: render_panes_def split: sum.splits)

lemma saveButton_rendered_iff:
  "saveButton_rendered stringify p st \<longleftrightarrow>
     editMode st \<and> (\<forall>viewId\<in>set (tabs p). js_get (views p) viewId \<noteq> None)"
proof (cases "render stringify p st")
  case (Inl e)
  then have "\<not> (\<exists>el. render stringify p st = Inr el)" by simp
  then have "\<not> (\<forall>viewId\<in>set (tabs p). js_get (views p) viewId \<noteq> None)"
    using render_Inr_iff [of stringify p st] by blast
  with Inl show ?thesis by (simp add: saveButton_rendered_def)
next
  case (Inr el)
  then have "\<forall>viewId\<in>set (tabs p). js_get (views p) viewId \<noteq> None"
    using render_Inr_iff [of stringify p st] by blast
  moreover from Inr have "saveButton el \<noteq> None \<longleftrightarrow> editMode st"
    by (elim render_InrE) simp
  ultimately show ?thesis using Inr by (simp add: saveButton_rendered_def)
qed

lemma tabStrip_rendered_iff:
  "tabStrip_rendered stringify p st \<longleftrightarrow>
     (\<not> blank p \<or> editMode st) \<and> (\<forall>viewId\<in>set (tabs p). js_get (views p) viewId \<noteq> None)"
proof (cases "render stringify p st")
  case (Inl e)
  then have "\<not> (\<exists>el. render stringify p st = Inr el)" by simp
  then have "\<not> (\<forall>viewId\<in>set (tabs p). js_get (views p) viewId \<noteq> None)"
    using render_Inr_iff [of stringify p st] by blast
  with Inl show ?thesis by (simp add: tabStrip_rendered_def)
next
  case (Inr el)
  then have "\<forall>viewId\<in>set (tabs p). js_get (views p) viewId \<noteq> None"
    using render_Inr_iff [of stringify p st] by blast
  moreover from Inr have "tabStrip el \<noteq> None \<longleftrightarrow> \<not> blank p \<or> editMode st"
    by (elim render_InrE) simp
  ultimately show ?thesis using Inr by (simp add: tabStrip_rendered_def)
qed

subsection \<open>The concrete instance renders\<close>

lemma ex_props_cover: "\<forall>viewId\<in>set (tabs ex_props). views ex_props viewId \<noteq> None"
  by (simp add: ex_props_def ex_views_def)

lemma ex_render_viewing: "\<exists>el. render ex_stringify ex_props viewing = Inr el"
  using ex_props_cover by (rule render_cover)

lemma ex_render_editing: "\<exists>el. render ex_stringify ex_props editing = Inr el"
  using ex_props_cover by (rule render_cover)

lemma ex_props_entries:
  "tabs ex_props = [''a'', ''b''] \<and> views ex_props ''a'' \<noteq> None \<and> views ex_props ''b'' \<noteq> None"
  by (simp add: ex_props_def ex_views_def)

subsection \<open>Edit mode: the "+" pane and the Save button\<close>

text \<open>
  C2, as amended: for every props value whose tab ids all have entries in views, render
  returns a tree, and when editMode is true the pane list is the panes of the real tabs
  (one per tab, none of them a "+" pane) followed by exactly one extra pane descriptor, the
  "+" add-tab control, and the Save Changes button is rendered; when editMode is false the
  pane list is the panes of the real tabs alone and the Save button is absent. For every
  props value, with editMode false no "+" pane descriptor is produced and no Save button is
  rendered.
\<close>

theorem C2_edit_mode_panes:
  fixes p :: "('vt, 'vs, 'r) props"
  shows
  "((\<forall>viewId\<in>set (tabs p). views p viewId \<noteq> None) \<longrightarrow>
      (\<exists>qs el. tab_panes p st (tabs p) = Inr qs \<and> length qs = length (tabs p) \<and>
         (\<forall>x\<in>set qs. \<not> isAddPane x) \<and>
         render stringify p st = Inr el \<and>
         (\<forall>t. tabStrip el = Some t \<longrightarrow> Inr (panes t) = render_panes p st) \<and>
         (editMode st \<longrightarrow>
            render_panes p st = Inr (qs @ [AddPane (add_onClick p)]) \<and>
            (\<exists>b. saveButton el = Some b \<and> content b = ''Save Changes'') \<and>
            saveButton_rendered stringify p st) \<and>
         (\<not> editMode st \<longrightarrow> render_panes p st = Inr qs \<and> saveButton el = None))) \<and>
   (\<not> editMode st \<longrightarrow>
      \<not> saveButton_rendered stringify p st \<and>
      (\<forall>ps. render_panes p st = Inr ps \<longrightarrow> (\<forall>x\<in>set ps. \<not> isAddPane x)))"
proof -
  have part1: "\<exists>qs el. tab_panes p st (tabs p) = Inr qs \<and> length qs = length (tabs p) \<and>
         (\<forall>x\<in>set qs. \<not> isAddPane x) \<and>
         render stringify p st = Inr el \<and>
         (\<forall>t. tabStrip el = Some t \<longrightarrow> Inr (panes t) = render_panes p st) \<and>
         (editMode st \<longrightarrow>
            render_panes p st = Inr (qs @ [AddPane (add_onClick p)]) \<and>
            (\<exists>b. saveButton el = Some b \<and> content b = ''Save Changes'') \<and>
            saveButton_rendered stringify p st) \<and>
         (\<not> editMode st \<longrightarrow> render_panes p st = Inr qs \<and> saveButton el = None)"
    if cover: "\<forall>viewId\<in>set (tabs p). views p viewId \<noteq> None"
  proof -
    from cover obtain qs where qs: "tab_panes p st (tabs p) = Inr qs"
      by (simp add: tab_panes_present)
    from tab_panes_no_add [OF qs] have
      len: "length qs = length (tabs p)" and na: "\<forall>x\<in>set qs. \<not> isAddPane x"
      by simp_all
    from cover obtain el where el: "render stringify p st = Inr el"
      using render_cover [of p stringify st] by blast
    have rp: "render_panes p st = Inr (if editMode st then qs @ [AddPane (add_onClick p)] else qs)"
      using qs by (simp add: render_panes_def)
    have strip: "\<forall>t. tabStrip el = Some t \<longrightarrow> Inr (panes t) = render_panes p st"
      using el by (elim render_InrE) (auto split: if_splits)
    have save: "saveButton el =
           (if editMode st
            then Some \<lparr>content = ''Save Changes'', color = Some ''green'',
                       floated = ''right'', icon = None,
                       disabled = (\<not> isModified p),
                       onClick = save_onClick stringify p\<rparr>
            else None)"
      using el by (elim render_InrE)
    have sr: "editMode st \<longrightarrow> saveButton_rendered stringify p st"
      using cover_js_get [OF cover] by (simp add: saveButton_rendered_iff)
    from qs len na el strip rp save sr show ?thesis
      by (cases "editMode st") auto
  qed
  have part2: "\<not> saveButton_rendered stringify p st \<and>
      (\<forall>ps. render_panes p st = Inr ps \<longrightarrow> (\<forall>x\<in>set ps. \<not> isAddPane x))"
    if view: "\<not> editMode st"
  proof -
    have "\<forall>x\<in>set ps. \<not> isAddPane x" if "render_panes p st = Inr ps" for ps
    proof -
      from render_panes_InrD [OF that] view have "tab_panes p st (tabs p) = Inr ps"
        by auto
      from tab_panes_no_add [OF this] show ?thesis by simp
    qed
    with view show ?thesis by (simp add: saveButton_rendered_iff)
  qed
  from part1 part2 show ?thesis by blast
qed

theorem C2_edit_mode_panes_witness:
  "tabs ex_props = [''a'', ''b''] \<and> views ex_props ''a'' \<noteq> None \<and>
   views ex_props ''b'' \<noteq> None \<and>
   (\<exists>qs. tab_panes ex_props editing (tabs ex_props) = Inr qs \<and> length qs = 2 \<and>
         render_panes ex_props editing = Inr (qs @ [AddPane (add_onClick ex_props)])) \<and>
   saveButton_rendered ex_stringify ex_props editing \<and>
   \<not> saveButton_rendered ex_stringify ex_props viewing"
proof -
  have e: "editMode editing" "\<not> editMode viewing"
    by (simp_all add: editing_def viewing_def)
  from C2_edit_mode_panes [of ex_props editing ex_stringify] ex_props_cover e(1) obtain qs where
    "tab_panes ex_props editing (tabs ex_props) = Inr qs" "length qs = length (tabs ex_props)"
    "render_panes ex_props editing = Inr (qs @ [AddPane (add_onClick ex_props)])"
    "saveButton_rendered ex_stringify ex_props editing"
    by blast
  moreover have "length (tabs ex_props) = 2" by (simp add: ex_props_def)
  moreover from C2_edit_mode_panes [of ex_props viewing ex_stringify] e(2)
  have "\<not> saveButton_rendered ex_stringify ex_props viewing"
    by blast
  ultimately show ?thesis using ex_props_entries by auto
qed

text \<open>
  The claim as first stated speaks of every props value. With editMode true and a tab id
  (here c) that has no entry in views and names no inherited property, the property read
  of line 17 throws: no pane list
  is built and no Save button is rendered.
\<close>

theorem C2_edit_mode_panes_counterexample:
  "editMode editing \<and>
   render_panes (ex_props\<lparr>tabs := [''a'', ''c'']\<rparr>) editing = Inl TypeError \<and>
   render ex_stringify (ex_props\<lparr>tabs := [''a'', ''c'']\<rparr>) editing = Inl TypeError \<and>
   \<not> saveButton_rendered ex_stringify (ex_props\<lparr>tabs := [''a'', ''c'']\<rparr>) editing"
  by (simp add: saveButton_rendered_def render_def render_panes_def js_get_def
      Object_prototype_def js_concat_def ex_props_def ex_views_def editing_def)

subsection \<open>The Save button and the mode button\<close>

text \<open>
  C3: clicking the Save Changes button while isModified is true calls updateViews exactly
  once, with the JSON text of viewState as its only argument, and resets editMode to false;
  while isModified is false the button is disabled and a click has no effect (no call,
  the state unchanged). The button is there only in edit mode.
\<close>

theorem C3_save_click:
  "render stringify p st = Inr el \<Longrightarrow> saveButton el = Some b \<Longrightarrow>
   editMode st \<and> disabled b = (\<not> isModified p) \<and>
   (isModified p \<longrightarrow>
      click b s = (s\<lparr>editMode := False\<rparr>, [UpdateViews (stringify (viewState p))])) \<and>
   (\<not> isModified p \<longrightarrow> click b s = (s, []))"
  by (erule render_InrE) (auto simp: click_def save_onClick_def split: if_splits)

theorem C3_save_click_witness:
  "(\<exists>el b. render ex_stringify ex_props editing = Inr el \<and> saveButton el = Some b \<and>
           isModified ex_props \<and> \<not> disabled b \<and>
           click b editing = (viewing, [UpdateViews ''true''])) \<and>
   (\<exists>el b. render ex_stringify (ex_props\<lparr>isModified := False\<rparr>) editing = Inr el \<and>
           saveButton el = Some b \<and> \<not> isModified (ex_props\<lparr>isModified := False\<rparr>) \<and>
           disabled b \<and> click b editing = (editing, []))"
proof -
  have m: "isModified ex_props" by (simp add: ex_props_def)
  from ex_render_editing obtain el where el: "render ex_stringify ex_props editing = Inr el" ..
  then obtain b where b: "saveButton el = Some b"
    by (elim render_InrE) (simp add: editing_def)
  from C3_save_click [OF el b, of editing] m
  have "\<not> disabled b \<and> click b editing = (viewing, [UpdateViews ''true''])"
    by (simp add: ex_props_def ex_stringify_def viewing_def editing_def)
  with el b m have first:
    "\<exists>el b. render ex_stringify ex_props editing = Inr el \<and> saveButton el = Some b \<and>
           isModified ex_props \<and> \<not> disabled b \<and>
           click b editing = (viewing, [UpdateViews ''true''])"
    by blast
  have n: "\<not> isModified (ex_props\<lparr>isModified := False\<rparr>)" by simp
  have "\<forall>viewId\<in>set (tabs (ex_props\<lparr>isModified := False\<rparr>)).
          views (ex_props\<lparr>isModified := False\<rparr>) viewId \<noteq> None"
    using ex_props_cover by simp
  then obtain el' where
    el': "render ex_stringify (ex_props\<lparr>isModified := False\<rparr>) editing = Inr el'"
    using render_cover [of "ex_props\<lparr>isModified := False\<rparr>" ex_stringify editing] by blast
  then obtain b' where b': "saveButton el' = Some b'"
    by (elim render_InrE) (simp add: editing_def)
  from C3_save_click [OF el' b', of editing] n
  have "disabled b' \<and> click b' editing = (editing, [])"
    by simp
  with el' b' n have second:
    "\<exists>el b. render ex_stringify (ex_props\<lparr>isModified := False\<rparr>) editing = Inr el \<and>
           saveButton el = Some b \<and> \<not> isModified (ex_props\<lparr>isModified := False\<rparr>) \<and>
           disabled b \<and> click b editing = (editing, [])"
    by blast
  from first second show ?thesis ..
qed

text \<open>
  C4: for every starting value of editMode, clicking the mode button flips editMode once
  (true to false, false to true) and calls no parent callback (neither updateViews nor
  any other).
\<close>

theorem C4_toggle_click:
  "render stringify p st = Inr el \<Longrightarrow>
   click (toggleButton el) s = (s\<lparr>editMode := \<not> editMode s\<rparr>, []) \<and>
   editMode (fst (click (toggleButton el) s)) = (\<not> editMode s) \<and>
   snd (click (toggleButton el) s) = []"
  by (erule render_InrE) (simp add: click_def toggle_onClick_def)

theorem C4_toggle_click_witness:
  "\<exists>el. render ex_stringify ex_props viewing = Inr el \<and>
        click (toggleButton el) viewing = (editing, []) \<and>
        click (toggleButton el) editing = (viewing, [])"
proof -
  from ex_render_viewing obtain el where el: "render ex_stringify ex_props viewing = Inr el" ..
  from C4_toggle_click [OF el, of viewing] have "click (toggleButton el) viewing = (editing, [])"
    by (simp add: viewing_def editing_def)
  moreover from C4_toggle_click [OF el, of editing] have "click (toggleButton el) editing = (viewing, [])"
    by (simp add: viewing_def editing_def)
  ultimately show ?thesis using el by blast
qed

subsection \<open>The tab strip\<close>

text \<open>
  C5, as amended: for every props value with blank true and editMode false, the tab strip
  is omitted (no pane content is emitted); for every props value whose tab ids all have entries in views, render
  returns a tree whose tab strip is omitted exactly when blank is true and editMode is
  false, so in every other combination of blank and editMode the tab strip is rendered.
\<close>

theorem C5_tab_strip_gate:
  "(blank p \<and> \<not> editMode st \<longrightarrow> \<not> tabStrip_rendered stringify p st) \<and>
   ((\<forall>viewId\<in>set (tabs p). views p viewId \<noteq> None) \<longrightarrow>
      (\<exists>el. render stringify p st = Inr el \<and>
            (tabStrip el = None \<longleftrightarrow> blank p \<and> \<not> editMode st)) \<and>
      (tabStrip_rendered stringify p st \<longleftrightarrow> \<not> (blank p \<and> \<not> editMode st)))"
proof -
  have a: "blank p \<and> \<not> editMode st \<longrightarrow> \<not> tabStrip_rendered stringify p st"
    by (simp add: tabStrip_rendered_iff)
  have b: "(\<exists>el. render stringify p st = Inr el \<and>
            (tabStrip el = None \<longleftrightarrow> blank p \<and> \<not> editMode st)) \<and>
      (tabStrip_rendered stringify p st \<longleftrightarrow> \<not> (blank p \<and> \<not> editMode st))"
    if cover: "\<forall>viewId\<in>set (tabs p). views p viewId \<noteq> None"
  proof -
    from cover obtain el where el: "render stringify p st = Inr el"
      using render_cover [of p stringify st] by blast
    then have "tabStrip el = None \<longleftrightarrow> blank p \<and> \<not> editMode st"
      by (elim render_InrE) simp
    with el cover_js_get [OF cover] show ?thesis by (auto simp: tabStrip_rendered_iff)
  qed
  from a b show ?thesis by blast
qed

theorem C5_tab_strip_gate_witness:
  "tabs ex_props = [''a'', ''b''] \<and> views ex_props ''a'' \<noteq> None \<and>
   views ex_props ''b'' \<noteq> None \<and>
   tabStrip_rendered ex_stringify ex_props viewing \<and>
   tabStrip_rendered ex_stringify (ex_props\<lparr>blank := True\<rparr>) editing \<and>
   blank (ex_props\<lparr>blank := True\<rparr>) \<and> \<not> editMode viewing \<and>
   \<not> tabStrip_rendered ex_stringify (ex_props\<lparr>blank := True\<rparr>) viewing"
proof -
  have e: "editMode editing" "\<not> editMode viewing"
    by (simp_all add: editing_def viewing_def)
  have b: "\<not> blank ex_props" "blank (ex_props\<lparr>blank := True\<rparr>)"
    by (simp_all add: ex_props_def)
  have c: "\<forall>viewId\<in>set (tabs (ex_props\<lparr>blank := True\<rparr>)).
             views (ex_props\<lparr>blank := True\<rparr>) viewId \<noteq> None"
    using ex_props_cover by simp
  from C5_tab_strip_gate [of ex_props viewing ex_stringify] ex_props_cover b(1)
  have 1: "tabStrip_rendered ex_stringify ex_props viewing" by blast
  from C5_tab_strip_gate [of "ex_props\<lparr>blank := True\<rparr>" editing ex_stringify] c e(1)
  have 2: "tabStrip_rendered ex_stringify (ex_props\<lparr>blank := True\<rparr>) editing" by blast
  from C5_tab_strip_gate [of "ex_props\<lparr>blank := True\<rparr>" viewing ex_stringify] b(2) e(2)
  have 3: "\<not> tabStrip_rendered ex_stringify (ex_props\<lparr>blank := True\<rparr>) viewing" by blast
  from ex_props_entries 1 2 b(2) e(2) 3 show ?thesis by blast
qed

text \<open>
  The claim as first stated promises the tab strip in every combination other than blank
  and not editing, for every props value. With blank false, editMode false and a tab id
  (here z) that has no entry in views and names no inherited property, render throws and
  no tab strip is rendered.
\<close>

theorem C5_tab_strip_gate_counterexample:
  "\<not> blank (ex_props\<lparr>tabs := [''z'']\<rparr>) \<and> \<not> editMode viewing \<and>
   render ex_stringify (ex_props\<lparr>tabs := [''z'']\<rparr>) viewing = Inl TypeError \<and>
   \<not> tabStrip_rendered ex_stringify (ex_props\<lparr>tabs := [''z'']\<rparr>) viewing"
  by (simp add: tabStrip_rendered_def render_def render_panes_def js_get_def
      Object_prototype_def js_concat_def ex_props_def ex_views_def viewing_def)

text \<open>
  C6: for every tab-change gesture that reports the index i, the component calls
  setActiveView(viewType, tabs[i]) when tabs[i] is a truthy id (i in range and the id not
  the empty string), and setActiveView(viewType, i) with the raw index when tabs[i] is
  falsy; in particular an index at or beyond the length of tabs (the "+" pane) gives the
  raw index. Nothing else is called and the state is unchanged.
\<close>

theorem C6_tab_change:
  "render stringify p st = Inr el \<Longrightarrow> tabStrip el = Some t \<Longrightarrow>
   (0 \<le> i \<and> i < int (length (tabs p)) \<and> tabs p ! nat i \<noteq> [] \<longrightarrow>
      onTabChange t i s = (s, [SetActiveView (viewType p) (Str (tabs p ! nat i))])) \<and>
   (\<not> (0 \<le> i \<and> i < int (length (tabs p)) \<and> tabs p ! nat i \<noteq> []) \<longrightarrow>
      onTabChange t i s = (s, [SetActiveView (viewType p) (Num i)])) \<and>
   (int (length (tabs p)) \<le> i \<longrightarrow>
      onTabChange t i s = (s, [SetActiveView (viewType p) (Num i)]))"
  by (erule render_InrE)
     (auto simp: tab_onTabChange_def js_or_def js_index_def split: if_splits)

theorem C6_tab_change_witness:
  "\<exists>el t. render ex_stringify ex_props editing = Inr el \<and> tabStrip el = Some t \<and>
          onTabChange t 0 editing = (editing, [SetActiveView ''runs'' (Str ''a'')]) \<and>
          onTabChange t 1 editing = (editing, [SetActiveView ''runs'' (Str ''b'')]) \<and>
          onTabChange t 2 editing = (editing, [SetActiveView ''runs'' (Num 2)])"
proof -
  from ex_render_editing obtain el where el: "render ex_stringify ex_props editing = Inr el" ..
  then obtain t where t: "tabStrip el = Some t"
    by (elim render_InrE) (simp add: editing_def)
  from C6_tab_change [OF el t, of 0 editing]
  have "onTabChange t 0 editing = (editing, [SetActiveView ''runs'' (Str ''a'')])"
    by (simp add: ex_props_def)
  moreover from C6_tab_change [OF el t, of 1 editing]
  have "onTabChange t 1 editing = (editing, [SetActiveView ''runs'' (Str ''b'')])"
    by (simp add: ex_props_def)
  moreover from C6_tab_change [OF el t, of 2 editing]
  have "onTabChange t 2 editing = (editing, [SetActiveView ''runs'' (Num 2)])"
    by (simp add: ex_props_def)
  ultimately show ?thesis using el t by blast
qed

text \<open>
  C7: the "+" add-tab control is among the panes of the tab strip only in edit mode (there
  it is the last pane, and the only "+" pane), and selecting it calls addView exactly once,
  with the arguments viewType, "New View" and the empty sequence.
\<close>

theorem C7_add_tab:
  "render stringify p st = Inr el \<Longrightarrow> tabStrip el = Some t \<Longrightarrow>
   (editMode st \<longrightarrow>
      (\<exists>qs. panes t = qs @ [AddPane (add_onClick p)] \<and> (\<forall>x\<in>set qs. \<not> isAddPane x))) \<and>
   (\<not> editMode st \<longrightarrow> (\<forall>x\<in>set (panes t). \<not> isAddPane x)) \<and>
   (\<forall>h. AddPane h \<in> set (panes t) \<longrightarrow>
      editMode st \<and> h s = (s, [AddView (viewType p) ''New View'' []]))"
proof -
  assume r: "render stringify p st = Inr el" and t: "tabStrip el = Some t"
  from r obtain ps where ps: "render_panes p st = Inr ps"
    and strip: "tabStrip el =
           (if \<not> blank p \<or> editMode st
            then Some \<lparr>panes = ps, activeIndex = render_activeIndex p,
                       onTabChange = tab_onTabChange p\<rparr>
            else None)"
    by (rule render_InrE)
  from strip t have pt: "panes t = ps"
    by (auto split: if_splits)
  from render_panes_InrD [OF ps] obtain qs where
    qs: "tab_panes p st (tabs p) = Inr qs"
        "ps = (if editMode st then qs @ [AddPane (add_onClick p)] else qs)"
    by blast
  from tab_panes_no_add [OF qs(1)] have na: "\<forall>x\<in>set qs. \<not> isAddPane x"
    by simp
  have a: "editMode st \<longrightarrow>
      (\<exists>qs. panes t = qs @ [AddPane (add_onClick p)] \<and> (\<forall>x\<in>set qs. \<not> isAddPane x))"
    using pt qs(2) na by auto
  have b: "\<not> editMode st \<longrightarrow> (\<forall>x\<in>set (panes t). \<not> isAddPane x)"
    using pt qs(2) na by simp
  have c: "editMode st \<and> h s = (s, [AddView (viewType p) ''New View'' []])"
    if "AddPane h \<in> set (panes t)" for h
  proof -
    from that pt qs(2) na have "editMode st \<and> h = add_onClick p"
      by (cases "editMode st") (auto dest: bspec)
    then show ?thesis by (simp add: add_onClick_def)
  qed
  from a b c show ?thesis by blast
qed

theorem C7_add_tab_witness:
  "\<exists>el t h. render ex_stringify ex_props editing = Inr el \<and> tabStrip el = Some t \<and>
            editMode editing \<and> AddPane h \<in> set (panes t) \<and>
            h editing = (editing, [AddView ''runs'' ''New View'' []])"
proof -
  have e: "editMode editing" by (simp add: editing_def)
  from ex_render_editing obtain el where el: "render ex_stringify ex_props editing = Inr el" ..
  then obtain t where t: "tabStrip el = Some t"
    by (elim render_InrE) (simp add: editing_def)
  note c7 = C7_add_tab [OF el t, of editing]
  from c7 e obtain qs where "panes t = qs @ [AddPane (add_onClick ex_props)]"
    by blast
  then have mem: "AddPane (add_onClick ex_props) \<in> set (panes t)"
    by simp
  with c7 have "add_onClick ex_props editing = (editing, [AddView (viewType ex_props) ''New View'' []])"
    by blast
  then have "add_onClick ex_props editing = (editing, [AddView ''runs'' ''New View'' []])"
    by (simp add: ex_props_def)
  with el t e mem show ?thesis by blast
qed

text \<open>
  C8: for every tabs sequence whose ids all have entries in views, the pane descriptors
  are produced one per tab id in the order of tabs (pane i belongs to tabs[i]; in edit mode
  the "+" pane follows them), each menu label is the view's name followed by one space,
  and each pane body is renderView(id, editMode). These are the panes handed to the tab
  strip.
\<close>

theorem C8_tab_panes:
  fixes p :: "('vt, 'vs, 'r) props"
  shows "\<forall>viewId\<in>set (tabs p). views p viewId \<noteq> None \<Longrightarrow>
   \<exists>ps el. render_panes p st = Inr ps \<and>
     length ps = length (tabs p) + (if editMode st then 1 else 0) \<and>
     (\<forall>i<length (tabs p). \<exists>v. views p (tabs p ! i) = Some v \<and>
        ps ! i = ViewPane (tabs p ! i) (name v @ '' '')
                   (renderView p (tabs p ! i) (editMode st))) \<and>
     render stringify p st = Inr el \<and>
     (\<forall>t. tabStrip el = Some t \<longrightarrow> panes t = ps)"
proof -
  assume cover: "\<forall>viewId\<in>set (tabs p). views p viewId \<noteq> None"
  define f where
    "f = (\<lambda>viewId. ViewPane viewId (name (the (views p viewId)) @ '' '')
                 (renderView p viewId (editMode st)) :: ('vt, 'r) pane)"
  define ps where "ps = map f (tabs p) @ (if editMode st then [AddPane (add_onClick p)] else [])"
  from cover have rp: "render_panes p st = Inr ps"
    unfolding ps_def f_def by (rule render_panes_present)
  have len: "length ps = length (tabs p) + (if editMode st then 1 else 0)"
    by (simp add: ps_def)
  have nth: "\<exists>v. views p (tabs p ! i) = Some v \<and>
        ps ! i = ViewPane (tabs p ! i) (name v @ '' '')
                   (renderView p (tabs p ! i) (editMode st))"
    if "i < length (tabs p)" for i
  proof -
    from that cover obtain v where v: "views p (tabs p ! i) = Some v"
      by (metis nth_mem not_None_eq)
    from that have "ps ! i = f (tabs p ! i)"
      by (simp add: ps_def nth_append)
    with v show ?thesis by (simp add: f_def)
  qed
  from cover obtain el where el: "render stringify p st = Inr el"
    using render_cover [of p stringify st] by blast
  have strip: "panes t = ps" if "tabStrip el = Some t" for t
    using el that rp by (elim render_InrE) (auto split: if_splits)
  from rp len nth el strip show ?thesis by blast
qed

theorem C8_tab_panes_witness:
  "tabs ex_props = [''a'', ''b''] \<and> views ex_props ''a'' \<noteq> None \<and>
   views ex_props ''b'' \<noteq> None \<and>
   (\<exists>ps. render_panes ex_props viewing = Inr ps \<and> length ps = 2 \<and>
         ps ! 0 = ViewPane ''a'' ''Alpha '' ''view a'' \<and>
         ps ! 1 = ViewPane ''b'' ''Beta '' ''view b'')"
proof -
  from C8_tab_panes [OF ex_props_cover, of viewing ex_stringify] obtain ps where
    ps: "render_panes ex_props viewing = Inr ps"
        "length ps = length (tabs ex_props) + (if editMode viewing then 1 else 0)"
        "\<forall>i<length (tabs ex_props). \<exists>v. views ex_props (tabs ex_props ! i) = Some v \<and>
           ps ! i = ViewPane (tabs ex_props ! i) (name v @ '' '')
                      (renderView ex_props (tabs ex_props ! i) (editMode viewing))"
    by blast
  from ps(2) have len: "length ps = 2"
    by (simp add: ex_props_def viewing_def)
  have l: "length (tabs ex_props) = 2" by (simp add: ex_props_def)
  from ps(3) l have
    "\<exists>v. views ex_props (tabs ex_props ! 0) = Some v \<and>
       ps ! 0 = ViewPane (tabs ex_props ! 0) (name v @ '' '')
                  (renderView ex_props (tabs ex_props ! 0) (editMode viewing))"
    by simp
  then have p0: "ps ! 0 = ViewPane ''a'' ''Alpha '' ''view a''"
    by (auto simp: ex_props_def ex_views_def ex_renderView_def viewing_def)
  from ps(3) l have
    "\<exists>v. views ex_props (tabs ex_props ! 1) = Some v \<and>
       ps ! 1 = ViewPane (tabs ex_props ! 1) (name v @ '' '')
                  (renderView ex_props (tabs ex_props ! 1) (editMode viewing))"
    by simp
  then have p1: "ps ! 1 = ViewPane ''b'' ''Beta '' ''view b''"
    by (auto simp: ex_props_def ex_views_def ex_renderView_def viewing_def)
  from ex_props_entries ps(1) len p0 p1 show ?thesis by blast
qed

subsection \<open>A tab id without a view\<close>

text \<open>
  C9, as amended: for any tabs sequence that contains an id which has no entry in views and
  is not the name of a property that views inherits from Object.prototype, rendering
  reaches the property read on an undefined value and throws a TypeError; nothing catches
  it, so the error is the result of building the panes and of render itself.
\<close>

theorem C9_missing_view_throws:
  "\<exists>viewId\<in>set (tabs p). views p viewId = None \<and> Object_prototype viewId = None \<Longrightarrow>
   render_panes p st = Inl TypeError \<and> render stringify p st = Inl TypeError"
proof -
  assume "\<exists>viewId\<in>set (tabs p). views p viewId = None \<and> Object_prototype viewId = None"
  then obtain viewId where "viewId \<in> set (tabs p)" "js_get (views p) viewId = None"
    by (auto simp: js_get_None_iff)
  then have "render_panes p st = Inl TypeError"
    by (rule render_panes_missing)
  then show ?thesis by (simp add: render_Inl_iff)
qed

theorem C9_missing_view_throws_witness:
  "''c'' \<in> set (tabs (ex_props\<lparr>tabs := [''b'', ''c'']\<rparr>)) \<and>
   views (ex_props\<lparr>tabs := [''b'', ''c'']\<rparr>) ''c'' = None \<and>
   Object_prototype ''c'' = None \<and>
   render_panes (ex_props\<lparr>tabs := [''b'', ''c'']\<rparr>) viewing = Inl TypeError \<and>
   render ex_stringify (ex_props\<lparr>tabs := [''b'', ''c'']\<rparr>) viewing = Inl TypeError"
proof -
  have h: "''c'' \<in> set (tabs (ex_props\<lparr>tabs := [''b'', ''c'']\<rparr>)) \<and>
           views (ex_props\<lparr>tabs := [''b'', ''c'']\<rparr>) ''c'' = None \<and>
           Object_prototype ''c'' = None"
    by (simp add: ex_props_def ex_views_def Object_prototype_def)
  then have "\<exists>viewId\<in>set (tabs (ex_props\<lparr>tabs := [''b'', ''c'']\<rparr>)).
               views (ex_props\<lparr>tabs := [''b'', ''c'']\<rparr>) viewId = None \<and>
               Object_prototype viewId = None"
    by blast
  from C9_missing_view_throws [OF this, of viewing ex_stringify] h show ?thesis by blast
qed

text \<open>
  The claim as first stated speaks of any id with no entry in views. The id
  \<^verbatim>\<open>constructor\<close> has no entry in the views a and b, yet \<^verbatim>\<open>views["constructor"]\<close> is the
  inherited function \<^verbatim>\<open>Object\<close>, whose name is read without an error: the pane is built,
  labelled "Object ", and render returns a tree.
\<close>

theorem C9_missing_view_throws_counterexample:
  "''constructor'' \<in> set (tabs (ex_props\<lparr>tabs := [''constructor'']\<rparr>)) \<and>
   views (ex_props\<lparr>tabs := [''constructor'']\<rparr>) ''constructor'' = None \<and>
   render_panes (ex_props\<lparr>tabs := [''constructor'']\<rparr>) viewing =
     Inr [ViewPane ''constructor'' ''Object '' ''view constructor''] \<and>
   render ex_stringify (ex_props\<lparr>tabs := [''constructor'']\<rparr>) viewing \<noteq> Inl TypeError"
  by (simp add: render_def render_panes_def js_get_def Object_prototype_def js_concat_def
      ex_props_def ex_views_def ex_renderView_def viewing_def)

subsection \<open>A falsy tab id\<close>

text \<open>
  C10: for every tab-change gesture at an index i in range whose tab id tabs[i] is the
  empty string (the falsy string), setActiveView receives the number i and not the tab id,
  since the fallback is a logical or.
\<close>

theorem C10_falsy_id_falls_back:
  "render stringify p st = Inr el \<Longrightarrow> tabStrip el = Some t \<Longrightarrow>
   0 \<le> i \<Longrightarrow> i < int (length (tabs p)) \<Longrightarrow> tabs p ! nat i = [] \<Longrightarrow>
   onTabChange t i s = (s, [SetActiveView (viewType p) (Num i)])"
  by (erule render_InrE)
     (auto simp: tab_onTabChange_def js_or_def js_index_def split: if_splits)

theorem C10_falsy_id_falls_back_witness:
  "\<exists>el t. render ex_stringify
            (ex_props\<lparr>tabs := [''a'', ''''], views := ex_views('''' \<mapsto> \<lparr>name = ''Untitled''\<rparr>)\<rparr>)
            viewing = Inr el \<and>
          tabStrip el = Some t \<and>
          tabs (ex_props\<lparr>tabs := [''a'', ''''],
                  views := ex_views('''' \<mapsto> \<lparr>name = ''Untitled''\<rparr>)\<rparr>) ! nat 1 = [] \<and>
          onTabChange t 1 viewing = (viewing, [SetActiveView ''runs'' (Num 1)])"
proof -
  define q where
    "q = ex_props\<lparr>tabs := [''a'', ''''], views := ex_views('''' \<mapsto> \<lparr>name = ''Untitled''\<rparr>)\<rparr>"
  have "\<forall>viewId\<in>set (tabs q). views q viewId \<noteq> None"
    by (simp add: q_def ex_views_def)
  then obtain el where el: "render ex_stringify q viewing = Inr el"
    using render_cover [of q ex_stringify viewing] by blast
  then obtain t where t: "tabStrip el = Some t"
    by (elim render_InrE) (simp add: q_def ex_props_def)
  have h: "(0::int) \<le> 1" "1 < int (length (tabs q))" "tabs q ! nat 1 = []"
    by (simp_all add: q_def)
  from C10_falsy_id_falls_back [OF el t h, of viewing]
  have "onTabChange t 1 viewing = (viewing, [SetActiveView ''runs'' (Num 1)])"
    by (simp add: q_def ex_props_def)
  with el t h(3) show ?thesis unfolding q_def by blast
qed

end
